theory Spec2Isabelle
  imports Complex_Main
begin

section \<open>Time series, frames and the pandas operations the notebooks use\<close>

text \<open>
  The notebooks work on hourly data: a timestamp is the number of hours since a fixed
  epoch, so that one step of \<^verbatim>\<open>freq='H'\<close> is \<open>1\<close>.  A cell of a pandas column is a
  value or \<^verbatim>\<open>NaN\<close> (\<open>None\<close>).  A \<^verbatim>\<open>Series\<close> with a \<^verbatim>\<open>DatetimeIndex\<close> is
  the list of its (label, value) pairs; a \<^verbatim>\<open>DataFrame\<close> is its column labels and
  its rows, every row holding one cell per column.
\<close>

type_synonym timestamp = int

datatype error = ValueError | KeyError

type_synonym 'a series = "(timestamp \<times> 'a option) list"

record 'a frame =
  columns :: "string list"
  rows :: "(timestamp \<times> 'a option list) list"

definition frame_index :: "'a frame \<Rightarrow> timestamp list" where
  "frame_index df = map fst (rows df)"

text \<open>\<^verbatim>\<open>energy[['load']]\<close>: the frame with the single column \<^verbatim>\<open>load\<close>.\<close>

definition single_column :: "string \<Rightarrow> 'a series \<Rightarrow> 'a frame" where
  "single_column c s = \<lparr>columns = [c], rows = map (\<lambda>(t, v). (t, [v])) s\<rparr>"

text \<open>Python's \<^verbatim>\<open>str\<close> on a non-negative integer.\<close>

fun str :: "nat \<Rightarrow> string" where
  "str n = (if n < 10 then [char_of (48 + n)]
            else str (n div 10) @ [char_of (48 + n mod 10)])"

declare str.simps [simp del]

fun col_pos :: "string \<Rightarrow> string list \<Rightarrow> nat option" where
  "col_pos c [] = None"
| "col_pos c (d # ds) = (if c = d then Some 0 else map_option Suc (col_pos c ds))"

text \<open>\<^verbatim>\<open>df[c]\<close>: the column as a series on the frame's index; \<^verbatim>\<open>KeyError\<close> when the
  frame has no such column.\<close>

definition getitem :: "'a frame \<Rightarrow> string \<Rightarrow> error + 'a series" where
  "getitem df c =
     (case col_pos c (columns df) of
        None \<Rightarrow> Inl KeyError
      | Some i \<Rightarrow> Inr (map (\<lambda>(t, vs). (t, vs ! i)) (rows df)))"

text \<open>\<^verbatim>\<open>s.shift(periods, freq='H')\<close>: with a frequency given, pandas moves the index
  by \<open>periods\<close> hours and leaves the values where they are.\<close>

definition shift_freq :: "int \<Rightarrow> 'a series \<Rightarrow> 'a series" where
  "shift_freq periods s = map (\<lambda>(t, v). (t + periods, v)) s"

text \<open>The value a series holds at a label; \<^verbatim>\<open>NaN\<close> when the label is absent.\<close>

definition look :: "'a series \<Rightarrow> timestamp \<Rightarrow> 'a option" where
  "look s t = (case map_of s t of None \<Rightarrow> None | Some v \<Rightarrow> v)"

text \<open>The alignment pandas performs when a series is stored into a frame
  (\<^verbatim>\<open>reindexer\<close> in \<^verbatim>\<open>DataFrame._sanitize_column\<close>): an index equal to the frame's is
  taken as it is; otherwise the series is reindexed on the frame's index, which raises
  \<^verbatim>\<open>ValueError\<close> (cannot reindex from a duplicate axis) when the series' labels repeat.\<close>

definition reindex :: "'a series \<Rightarrow> timestamp list \<Rightarrow> error + 'a option list" where
  "reindex s idx =
     (if map fst s = idx then Inr (map snd s)
      else if \<not> distinct (map fst s) then Inl ValueError
      else Inr (map (look s) idx))"

definition put_cell :: "nat option \<Rightarrow> 'a option list \<Rightarrow> 'a option \<Rightarrow> 'a option list" where
  "put_cell pos vs v = (case pos of None \<Rightarrow> vs @ [v] | Some i \<Rightarrow> vs[i := v])"

text \<open>\<^verbatim>\<open>df[c] = s\<close> for a series \<open>s\<close>.  A frame without rows takes the index of the
  series (\<^verbatim>\<open>DataFrame._ensure_valid_index\<close>), its other columns filled with \<^verbatim>\<open>NaN\<close>;
  otherwise the series is aligned on the frame's index.  A new label is appended as the
  last column, an existing one is overwritten in place.\<close>

definition setitem :: "'a frame \<Rightarrow> string \<Rightarrow> 'a series \<Rightarrow> error + 'a frame" where
  "setitem df c s =
     (let pos = col_pos c (columns df);
          cols = (case pos of None \<Rightarrow> columns df @ [c] | Some _ \<Rightarrow> columns df)
      in if rows df = [] then
           Inr \<lparr>columns = cols,
                rows = map (\<lambda>(t, v). (t, put_cell pos (replicate (length (columns df)) None) v)) s\<rparr>
         else
           (case reindex s (map fst (rows df)) of
              Inl e \<Rightarrow> Inl e
            | Inr vals \<Rightarrow>
                Inr \<lparr>columns = cols,
                     rows = map (\<lambda>((t, vs), v). (t, put_cell pos vs v)) (zip (rows df) vals)\<rparr>))"

text \<open>\<^verbatim>\<open>df.dropna(how='any')\<close>: only the rows without any \<^verbatim>\<open>NaN\<close> stay.\<close>

definition dropna :: "'a frame \<Rightarrow> 'a frame" where
  "dropna df = df\<lparr>rows := filter (\<lambda>(t, vs). list_all (\<lambda>v. v \<noteq> None) vs) (rows df)\<rparr>"

section \<open>The windowing construction of the one-step notebook\<close>

text \<open>\<^verbatim>\<open>df[c] = df[src].shift(periods, freq='H')\<close>\<close>

definition add_shifted :: "string \<Rightarrow> string \<Rightarrow> int \<Rightarrow> 'a frame \<Rightarrow> error + 'a frame" where
  "add_shifted c src periods df =
     (case getitem df src of
        Inl e \<Rightarrow> Inl e
      | Inr s \<Rightarrow> setitem df c (shift_freq periods s))"

text \<open>
  \<^verbatim>\<open>for t in range(1, T+1): df[name(T-t)] = df['load'].shift(T-t, freq='H')\<close>,
  the list being the values \<open>t\<close> still to run.
\<close>

fun shift_loop :: "(nat \<Rightarrow> string) \<Rightarrow> nat \<Rightarrow> nat list \<Rightarrow> 'a frame \<Rightarrow> error + 'a frame" where
  "shift_loop name T [] df = Inr df"
| "shift_loop name T (t # ts) df =
     (case add_shifted (name (T - t)) ''load'' (int (T - t)) df of
        Inl e \<Rightarrow> Inl e
      | Inr df' \<Rightarrow> shift_loop name T ts df')"

text \<open>The three cells of the notebook that build \<^verbatim>\<open>train_shifted\<close>,
  \<^verbatim>\<open>valid_shifted\<close> and \<^verbatim>\<open>test_shifted\<close> differ in the column labels only.\<close>

definition shifted :: "string \<Rightarrow> (nat \<Rightarrow> string) \<Rightarrow> nat \<Rightarrow> 'a frame \<Rightarrow> error + 'a frame" where
  "shifted y name T df0 =
     (case add_shifted y ''load'' (- 1) df0 of
        Inl e \<Rightarrow> Inl e
      | Inr df \<Rightarrow>
          (case shift_loop name T [1..<T + 1] df of
             Inl e \<Rightarrow> Inl e
           | Inr df' \<Rightarrow> Inr (dropna df')))"

text \<open>
  \<^verbatim>\<open>train_shifted = train.copy()\<close>,
  \<^verbatim>\<open>train_shifted['y_t+1'] = train_shifted['load'].shift(-1, freq='H')\<close>,
  the loop with the labels \<^verbatim>\<open>str(T-t)\<close>, and
  \<^verbatim>\<open>train_shifted = train_shifted.dropna(how='any')\<close>.
  The cell in between, which writes the eight column labels of \<open>T = 6\<close> by hand, is not
  part of the construction: the columns keep the labels the loop gave them.
\<close>

definition train_shifted :: "nat \<Rightarrow> 'a frame \<Rightarrow> error + 'a frame" where
  "train_shifted T train = shifted ''y_t+1'' str T train"

definition valid_shifted :: "nat \<Rightarrow> 'a frame \<Rightarrow> error + 'a frame" where
  "valid_shifted T valid = shifted ''y+1'' (\<lambda>n. ''load_t-'' @ str n) T valid"

definition test_shifted :: "nat \<Rightarrow> 'a frame \<Rightarrow> error + 'a frame" where
  "test_shifted T test = shifted ''y_t+1'' (\<lambda>n. ''load_t-'' @ str n) T test"

section \<open>The train, validation and test splits\<close>

text \<open>
  \<^verbatim>\<open>energy\<close> is the single \<^verbatim>\<open>load\<close> column that \<^verbatim>\<open>load_data\<close> returns, as a
  series.  The splits are boolean masks and a label slice on its index.
\<close>

text \<open>\<^verbatim>\<open>train = energy.copy()[energy.index < valid_start_dt][['load']]\<close>\<close>

definition train :: "timestamp \<Rightarrow> 'a series \<Rightarrow> 'a frame" where
  "train valid_start_dt energy =
     single_column ''load'' (filter (\<lambda>(t, v). t < valid_start_dt) energy)"

text \<open>
  \<^verbatim>\<open>look_back_dt = strptime(valid_start_dt) - timedelta(hours=T-1)\<close>,
  \<^verbatim>\<open>valid = energy.copy()[(energy.index >= look_back_dt) & (energy.index < test_start_dt)][['load']]\<close>
\<close>

definition valid :: "nat \<Rightarrow> timestamp \<Rightarrow> timestamp \<Rightarrow> 'a series \<Rightarrow> 'a frame" where
  "valid T valid_start_dt test_start_dt energy =
     (let look_back_dt = valid_start_dt - (int T - 1)
      in single_column ''load''
           (filter (\<lambda>(t, v). look_back_dt \<le> t \<and> t < test_start_dt) energy))"

text \<open>
  \<^verbatim>\<open>look_back_dt = strptime(test_start_dt) - timedelta(hours=T-1)\<close>,
  \<^verbatim>\<open>test = energy.copy()[test_start_dt:][['load']]\<close>:
  the slice starts at \<^verbatim>\<open>test_start_dt\<close>; \<^verbatim>\<open>look_back_dt\<close> is computed and not used.
\<close>

definition test :: "nat \<Rightarrow> timestamp \<Rightarrow> 'a series \<Rightarrow> 'a frame" where
  "test T test_start_dt energy =
     (let look_back_dt = test_start_dt - (int T - 1)
      in single_column ''load'' (filter (\<lambda>(t, v). test_start_dt \<le> t) energy))"

text \<open>\<^verbatim>\<open>df['load'] = scaler.transform(df)\<close> on a single-column frame: the scaler is
  an external component, here any function on the values, applied cell by cell.\<close>

definition transform :: "('a \<Rightarrow> 'b) \<Rightarrow> 'a frame \<Rightarrow> 'b frame" where
  "transform f df = \<lparr>columns = columns df,
                     rows = map (\<lambda>(t, vs). (t, map (map_option f) vs)) (rows df)\<rparr>"

section \<open>The evaluation frame\<close>

text \<open>A numpy array of one or two dimensions; \<open>Array2 m rs\<close> has the shape
  \<open>(length rs, m)\<close>, which keeps the second dimension of an array without rows.
  Arrays are rectangular: every row of \<open>Array2 m rs\<close> has \<open>m\<close> entries.\<close>

datatype ndarray = Array1 "real list" | Array2 nat "real list list"

fun well_shaped :: "ndarray \<Rightarrow> bool" where
  "well_shaped (Array1 xs) = True"
| "well_shaped (Array2 m rs) = list_all (\<lambda>r. length r = m) rs"

text \<open>\<^verbatim>\<open>pd.DataFrame(predictions, columns=labels)\<close>: the rows of the new frame (on a
  fresh \<^verbatim>\<open>RangeIndex\<close>); \<^verbatim>\<open>ValueError\<close> when the number of labels is not the number
  of columns of the data.  A one-dimensional array is a single column.\<close>

fun DataFrame :: "ndarray \<Rightarrow> string list \<Rightarrow> error + real option list list" where
  "DataFrame (Array1 xs) labels =
     (if length labels \<noteq> 1 then Inl ValueError else Inr (map (\<lambda>x. [Some x]) xs))"
| "DataFrame (Array2 m rs) labels =
     (if length labels \<noteq> m then Inl ValueError else Inr (map (map Some) rs))"

text \<open>\<^verbatim>\<open>eval_df['timestamp'] = test_shifted.index\<close>: a frame without rows takes the
  length of the assigned values, its prediction columns filled with \<^verbatim>\<open>NaN\<close>
  (\<^verbatim>\<open>DataFrame._ensure_valid_index\<close>); on a frame with rows a different length raises
  \<^verbatim>\<open>ValueError\<close> (length of values does not match length of index).\<close>

definition set_timestamp ::
  "real option list list \<Rightarrow> nat \<Rightarrow> timestamp list \<Rightarrow> error + (timestamp \<times> real option list) list" where
  "set_timestamp wide n idx =
     (if wide = [] then Inr (map (\<lambda>t. (t, replicate n None)) idx)
      else if length idx \<noteq> length wide then Inl ValueError
      else Inr (zip idx wide))"

text \<open>\<^verbatim>\<open>pd.melt(eval_df, id_vars='timestamp', value_name='prediction', var_name='h')\<close>:
  one block of rows per value column, in column order, each block running over the rows
  of the wide frame.\<close>

definition melt ::
  "(timestamp \<times> real option list) list \<Rightarrow> string list \<Rightarrow> (timestamp \<times> string \<times> real option) list" where
  "melt wide labels =
     concat (map (\<lambda>j. map (\<lambda>(t, vs). (t, labels ! j, vs ! j)) wide) [0..<length labels])"

text \<open>\<^verbatim>\<open>np.transpose(y_test).ravel()\<close>: a one-dimensional array is its own transpose;
  a two-dimensional one is read column by column.\<close>

fun transpose_ravel :: "ndarray \<Rightarrow> real list" where
  "transpose_ravel (Array1 ys) = ys"
| "transpose_ravel (Array2 m rs) = concat (map (\<lambda>j. map (\<lambda>r. r ! j) rs) [0..<m])"

record eval_row =
  timestamp :: "timestamp option"
  h :: "string option"
  prediction :: "real option"
  actual :: "real option"

text \<open>\<^verbatim>\<open>eval_df['actual'] = a\<close> for an array \<open>a\<close>, with the same two cases as for the
  timestamp column.\<close>

definition set_actual :: "(timestamp \<times> string \<times> real option) list \<Rightarrow> real list \<Rightarrow> error + eval_row list" where
  "set_actual long a =
     (if long = [] then
        Inr (map (\<lambda>y. \<lparr>timestamp = None, h = None, prediction = None, actual = Some y\<rparr>) a)
      else if length a \<noteq> length long then Inl ValueError
      else Inr (map (\<lambda>((t, l, p), y). \<lparr>timestamp = Some t, h = Some l, prediction = p, actual = Some y\<rparr>)
                  (zip long a)))"

text \<open>
  The cell that builds \<^verbatim>\<open>eval_df\<close>, as a function of the predictions, the index of
  \<^verbatim>\<open>test_shifted\<close>, the targets \<^verbatim>\<open>y_test\<close>, \<^verbatim>\<open>HORIZON\<close> and the scaler's
  \<^verbatim>\<open>inverse_transform\<close> (any function on the values, applied to both columns).
\<close>

definition eval_df ::
  "ndarray \<Rightarrow> timestamp list \<Rightarrow> ndarray \<Rightarrow> nat \<Rightarrow> (real \<Rightarrow> real) \<Rightarrow> error + eval_row list" where
  "eval_df predictions test_index y_test HORIZON inverse_transform =
     (let labels = map (\<lambda>t. ''t+'' @ str t) [1..<HORIZON + 1]
      in case DataFrame predictions labels of
           Inl e \<Rightarrow> Inl e
         | Inr wide \<Rightarrow>
             (case set_timestamp wide (length labels) test_index of
                Inl e \<Rightarrow> Inl e
              | Inr wide' \<Rightarrow>
                  (case set_actual (melt wide' labels) (transpose_ravel y_test) of
                     Inl e \<Rightarrow> Inl e
                   | Inr long \<Rightarrow>
                       Inr (map (\<lambda>r. r\<lparr>prediction := map_option inverse_transform (prediction r),
                                         actual := map_option inverse_transform (actual r)\<rparr>) long))))"

section \<open>The metric\<close>

text \<open>
  A float is a real number, the negative zero, or one of the three special values;
  \<open>Num 0\<close> is the positive zero.  The operations follow IEEE arithmetic, the signs of
  zeros and infinities included; rounding and overflow of finite values are not modelled.
\<close>

datatype fval = Num real | NZero | PInf | NInf | NaN

fun fsub :: "fval \<Rightarrow> fval \<Rightarrow> fval" where
  "fsub NaN _ = NaN"
| "fsub _ NaN = NaN"
| "fsub (Num x) (Num y) = Num (x - y)"
| "fsub (Num x) NZero = Num x"
| "fsub NZero (Num y) = (if y = 0 then NZero else Num (- y))"
| "fsub NZero NZero = Num 0"
| "fsub PInf PInf = NaN"
| "fsub NInf NInf = NaN"
| "fsub PInf _ = PInf"
| "fsub NInf _ = NInf"
| "fsub _ PInf = NInf"
| "fsub _ NInf = PInf"

fun fadd :: "fval \<Rightarrow> fval \<Rightarrow> fval" where
  "fadd NaN _ = NaN"
| "fadd _ NaN = NaN"
| "fadd (Num x) (Num y) = Num (x + y)"
| "fadd (Num x) NZero = Num x"
| "fadd NZero (Num y) = Num y"
| "fadd NZero NZero = NZero"
| "fadd PInf NInf = NaN"
| "fadd NInf PInf = NaN"
| "fadd PInf _ = PInf"
| "fadd NInf _ = NInf"
| "fadd _ PInf = PInf"
| "fadd _ NInf = NInf"

fun fabs :: "fval \<Rightarrow> fval" where
  "fabs (Num x) = Num \<bar>x\<bar>"
| "fabs NZero = Num 0"
| "fabs PInf = PInf"
| "fabs NInf = PInf"
| "fabs NaN = NaN"

text \<open>Float division does not raise: a nonzero number over a zero is an infinity whose
  sign is the product of the two signs, and \<open>0 / 0\<close> is \<^verbatim>\<open>NaN\<close>.\<close>

fun fdiv :: "fval \<Rightarrow> fval \<Rightarrow> fval" where
  "fdiv NaN _ = NaN"
| "fdiv _ NaN = NaN"
| "fdiv (Num x) (Num y) =
     (if y \<noteq> 0 then (if x = 0 \<and> y < 0 then NZero else Num (x / y))
      else if x = 0 then NaN else if 0 < x then PInf else NInf)"
| "fdiv (Num x) NZero = (if x = 0 then NaN else if 0 < x then NInf else PInf)"
| "fdiv NZero (Num y) = (if y = 0 then NaN else if 0 < y then NZero else Num 0)"
| "fdiv NZero NZero = NaN"
| "fdiv (Num x) PInf = (if x < 0 then NZero else Num 0)"
| "fdiv (Num x) NInf = (if x < 0 then Num 0 else NZero)"
| "fdiv NZero PInf = NZero"
| "fdiv NZero NInf = Num 0"
| "fdiv PInf (Num y) = (if 0 \<le> y then PInf else NInf)"
| "fdiv PInf NZero = NInf"
| "fdiv NInf (Num y) = (if 0 \<le> y then NInf else PInf)"
| "fdiv NInf NZero = PInf"
| "fdiv _ _ = NaN"

text \<open>Two series on a default \<^verbatim>\<open>RangeIndex\<close> are aligned label by label before an
  arithmetic operation; a label that one of them lacks gives \<^verbatim>\<open>NaN\<close>.\<close>

fun align :: "fval list \<Rightarrow> fval list \<Rightarrow> (fval \<times> fval) list" where
  "align [] [] = []"
| "align (x # xs) [] = (x, NaN) # align xs []"
| "align [] (y # ys) = (NaN, y) # align [] ys"
| "align (x # xs) (y # ys) = (x, y) # align xs ys"

definition series_op :: "(fval \<Rightarrow> fval \<Rightarrow> fval) \<Rightarrow> fval list \<Rightarrow> fval list \<Rightarrow> fval list" where
  "series_op f xs ys = map (\<lambda>(x, y). f x y) (align xs ys)"

text \<open>\<^verbatim>\<open>Series.mean()\<close> skips \<^verbatim>\<open>NaN\<close> (\<^verbatim>\<open>skipna=True\<close> is the default): the sum of
  the other values, accumulated from zero, over their number; \<^verbatim>\<open>NaN\<close> when there is
  none.\<close>

definition mean :: "fval list \<Rightarrow> fval" where
  "mean xs =
     (let vals = filter (\<lambda>x. x \<noteq> NaN) xs
      in if vals = [] then NaN
         else fdiv (foldl fadd (Num 0) vals) (Num (real (length vals))))"

text \<open>\<^verbatim>\<open>return ((predictions - actuals).abs() / actuals).mean()\<close>\<close>

definition mape :: "fval list \<Rightarrow> fval list \<Rightarrow> fval" where
  "mape predictions actuals =
     mean (series_op fdiv (map fabs (series_op fsub predictions actuals)) actuals)"

section \<open>Notions used in the statements\<close>

text \<open>Running a later step on the result of an earlier one; an error is passed on.\<close>

definition and_then :: "error + 'a \<Rightarrow> ('a \<Rightarrow> error + 'b) \<Rightarrow> error + 'b" where
  "and_then r f = (case r of Inl e \<Rightarrow> Inl e | Inr x \<Rightarrow> f x)"

text \<open>The number of samples of a constructed frame, and its surviving anchors.\<close>

definition sample_count :: "error + 'a frame \<Rightarrow> error + int" where
  "sample_count r = (case r of Inl e \<Rightarrow> Inl e | Inr df \<Rightarrow> Inr (int (length (rows df))))"

definition surviving_anchors :: "error + 'a frame \<Rightarrow> error + timestamp list" where
  "surviving_anchors r = (case r of Inl e \<Rightarrow> Inl e | Inr df \<Rightarrow> Inr (frame_index df))"

text \<open>\<^verbatim>\<open>df[cols].as_matrix()\<close>: the cells of the named columns, row by row.\<close>

definition as_matrix :: "'a frame \<Rightarrow> string list \<Rightarrow> error + 'a option list list" where
  "as_matrix df cols =
     (if list_ex (\<lambda>c. col_pos c (columns df) = None) cols then Inl KeyError
      else Inr (map (\<lambda>(t, vs). map (\<lambda>c. vs ! the (col_pos c (columns df))) cols) (rows df)))"

text \<open>\<^verbatim>\<open>predictions.shape[0]\<close>: the number of samples of an array.\<close>

fun shape0 :: "ndarray \<Rightarrow> nat" where
  "shape0 (Array1 xs) = length xs"
| "shape0 (Array2 m rs) = length rs"

text \<open>A zero of either sign; a finite value; the real number of a finite value.\<close>

fun is_zero :: "fval \<Rightarrow> bool" where
  "is_zero (Num x) = (x = 0)"
| "is_zero NZero = True"
| "is_zero _ = False"

fun finite_value :: "fval \<Rightarrow> bool" where
  "finite_value (Num x) = True"
| "finite_value NZero = True"
| "finite_value _ = False"

fun number :: "fval \<Rightarrow> real" where
  "number (Num x) = x"
| "number _ = 0"

text \<open>The element \<^verbatim>\<open>|prediction - actual| / actual\<close> of one pair of values.\<close>

definition ape :: "fval \<times> fval \<Rightarrow> fval" where
  "ape pa = fdiv (fabs (fsub (fst pa) (snd pa))) (snd pa)"

text \<open>The table holds a value (not \<^verbatim>\<open>NaN\<close>) at a timestamp.\<close>

definition has_value :: "'a series \<Rightarrow> timestamp \<Rightarrow> bool" where
  "has_value s t = (look s t \<noteq> None)"

text \<open>A gapless table: consecutive hours from its first row on, and no \<^verbatim>\<open>NaN\<close>.\<close>

definition gapless :: "'a series \<Rightarrow> bool" where
  "gapless s \<longleftrightarrow>
     (case s of [] \<Rightarrow> True | r # _ \<Rightarrow> map fst s = [fst r .. fst r + int (length s) - 1])
     \<and> list_all (\<lambda>r. snd r \<noteq> None) s"

text \<open>A timestamp inside the time range of the table: not before its earliest and not
  after its latest row.\<close>

definition in_range :: "'a series \<Rightarrow> timestamp \<Rightarrow> bool" where
  "in_range s t \<longleftrightarrow> list_ex (\<lambda>r. fst r \<le> t) s \<and> list_ex (\<lambda>r. t \<le> fst r) s"

text \<open>The frame the shifting steps build from the column \<^verbatim>\<open>load\<close> of a table:
  besides that column, one column per shift \<open>k\<close>, holding at every timestamp \<open>t\<close> the
  value the table has at \<open>t - k\<close>.\<close>

definition window_frame :: "string list \<Rightarrow> int list \<Rightarrow> 'a series \<Rightarrow> 'a frame" where
  "window_frame names ks s =
     \<lparr>columns = ''load'' # names,
      rows = map (\<lambda>(t, v). (t, v # map (\<lambda>k. look s (t - k)) ks)) s\<rparr>"

section \<open>Properties of the operations\<close>

lemma look_shift_freq: "look (shift_freq k s) t = look s (t - k)"
  by (induction s) (auto simp: look_def shift_freq_def)

lemma look_index: "distinct (map fst s) \<Longrightarrow> (t, v) \<in> set s \<Longrightarrow> look s t = v"
  by (simp add: look_def)

lemma map_look_index: "distinct (map fst s) \<Longrightarrow> map (look s) (map fst s) = map snd s"
  by (auto simp: look_index)

lemma fst_shift_freq: "map fst (shift_freq k s) = map (\<lambda>t. t + k) (map fst s)"
  by (simp add: shift_freq_def case_prod_unfold comp_def)

lemma snd_shift_freq: "map snd (shift_freq k s) = map snd s"
  by (simp add: shift_freq_def case_prod_unfold comp_def)

lemma distinct_shift_freq: "distinct (map fst s) \<Longrightarrow> distinct (map fst (shift_freq k s))"
  by (simp add: fst_shift_freq distinct_map inj_on_def)

lemma reindex_shift_freq:
  assumes "distinct (map fst s)"
  shows "reindex (shift_freq k s) (map fst s) = Inr (map (\<lambda>t. look s (t - k)) (map fst s))"
proof (cases "map fst (shift_freq k s) = map fst s")
  case True
  have "map snd (shift_freq k s) = map (look (shift_freq k s)) (map fst (shift_freq k s))"
    using map_look_index [OF distinct_shift_freq [OF assms], of k] by simp
  also have "\<dots> = map (\<lambda>t. look s (t - k)) (map fst s)"
    unfolding True by (simp add: look_shift_freq)
  finally show ?thesis using True by (simp add: reindex_def)
next
  case False
  then show ?thesis
    using distinct_shift_freq [OF assms, of k]
    by (simp add: reindex_def look_shift_freq)
qed

lemma col_pos_None: "c \<notin> set cs \<Longrightarrow> col_pos c cs = None"
  by (induction cs) auto

lemma getitem_window: "getitem (window_frame names ks s) ''load'' = Inr s"
  by (simp add: getitem_def window_frame_def case_prod_unfold comp_def)

lemma map_zip_same: "map f (zip (map a s) (map b s)) = map (\<lambda>x. f (a x, b x)) s"
  by (induction s) auto

lemma add_shifted_window:
  assumes "distinct (map fst s)" and "c \<notin> set (''load'' # names)"
  shows "add_shifted c ''load'' k (window_frame names ks s)
           = Inr (window_frame (names @ [c]) (ks @ [k]) s)"
proof -
  have pos: "col_pos c (columns (window_frame names ks s)) = None"
    using assms(2) by (intro col_pos_None) (simp add: window_frame_def)
  have idx: "map fst (rows (window_frame names ks s)) = map fst s"
    by (simp add: window_frame_def case_prod_unfold comp_def)
  show ?thesis
  proof (cases "s = []")
    case True
    have "rows (window_frame names ks s) = []"
      using True by (simp add: window_frame_def)
    then show ?thesis
      unfolding add_shifted_def getitem_window sum.case setitem_def Let_def pos
      using True by (simp add: shift_freq_def window_frame_def)
  next
    case False
    then have ne: "rows (window_frame names ks s) \<noteq> []"
      by (simp add: window_frame_def)
    show ?thesis
      unfolding add_shifted_def getitem_window sum.case setitem_def Let_def pos idx
        reindex_shift_freq [OF assms(1)]
      using ne
      by (simp add: window_frame_def put_cell_def map_zip_same case_prod_unfold)
  qed
qed

lemma shift_loop_window:
  assumes "distinct (map fst s)"
    and "distinct (map (\<lambda>t. name (T - t)) ts)"
    and "\<forall>t \<in> set ts. name (T - t) \<notin> set (''load'' # names)"
  shows "shift_loop name T ts (window_frame names ks s)
           = Inr (window_frame (names @ map (\<lambda>t. name (T - t)) ts)
                               (ks @ map (\<lambda>t. int (T - t)) ts) s)"
  using assms(2,3)
proof (induction ts arbitrary: names ks)
  case Nil
  then show ?case by simp
next
  case (Cons t ts)
  have step: "add_shifted (name (T - t)) ''load'' (int (T - t)) (window_frame names ks s)
      = Inr (window_frame (names @ [name (T - t)]) (ks @ [int (T - t)]) s)"
    using Cons.prems by (intro add_shifted_window assms(1)) simp
  have "shift_loop name T ts (window_frame (names @ [name (T - t)]) (ks @ [int (T - t)]) s)
      = Inr (window_frame ((names @ [name (T - t)]) @ map (\<lambda>t. name (T - t)) ts)
                               ((ks @ [int (T - t)]) @ map (\<lambda>t. int (T - t)) ts) s)"
  proof (intro Cons.IH)
    show "distinct (map (\<lambda>t. name (T - t)) ts)"
      using Cons.prems(1) by simp
    have "name (T - t) \<notin> (\<lambda>t. name (T - t)) ` set ts"
      using Cons.prems(1) by simp
    then have "\<forall>u \<in> set ts. name (T - u) \<noteq> name (T - t)"
      by (auto simp: image_iff)
    then show "\<forall>u\<in>set ts. name (T - u) \<notin> set (''load'' # names @ [name (T - t)])"
      using Cons.prems(2) by simp
  qed
  then show ?case by (simp add: step)
qed

lemma str_nonempty: "str n \<noteq> []"
  by (subst str.simps) simp

lemma str_digits: "c \<in> set (str n) \<Longrightarrow> 48 \<le> (of_char c :: nat) \<and> (of_char c :: nat) < 58"
proof (induction n rule: str.induct)
  case (1 n)
  show ?case
  proof (cases "n < 10")
    case True
    with "1.prems" have "c = char_of (48 + n)" by (subst (asm) str.simps) simp
    with True show ?thesis by simp
  next
    case False
    with "1.prems" have "c \<in> set (str (n div 10)) \<or> c = char_of (48 + n mod 10)"
      by (subst (asm) str.simps) auto
    then show ?thesis
    proof
      assume "c \<in> set (str (n div 10))"
      with False "1.IH" show ?thesis by simp
    next
      assume "c = char_of (48 + n mod 10)"
      moreover have "n mod 10 < 10" by simp
      ultimately show ?thesis by simp
    qed
  qed
qed

lemma str_inj: "str n = str m \<Longrightarrow> n = m"
proof (induction n arbitrary: m rule: str.induct)
  case (1 n)
  show ?case
  proof (cases "n < 10")
    case n: True
    show ?thesis
    proof (cases "m < 10")
      case True
      with n "1.prems" have "char_of (48 + n) = (char_of (48 + m) :: char)"
        by (simp add: str.simps [of n] str.simps [of m])
      then have "(of_char (char_of (48 + n) :: char) :: nat) = of_char (char_of (48 + m) :: char)"
        by simp
      with n True show ?thesis by simp
    next
      case False
      with n "1.prems" have "[char_of (48 + n)] = str (m div 10) @ [char_of (48 + m mod 10)]"
        by (simp add: str.simps [of n] str.simps [of m])
      then show ?thesis using str_nonempty [of "m div 10"] by simp
    qed
  next
    case n: False
    show ?thesis
    proof (cases "m < 10")
      case True
      with n "1.prems" have "str (n div 10) @ [char_of (48 + n mod 10)] = [char_of (48 + m)]"
        by (simp add: str.simps [of n] str.simps [of m])
      then show ?thesis using str_nonempty [of "n div 10"] by simp
    next
      case False
      with n "1.prems" have eq: "str (n div 10) = str (m div 10)"
        and ch: "char_of (48 + n mod 10) = (char_of (48 + m mod 10) :: char)"
        by (simp_all add: str.simps [of n] str.simps [of m])
      from eq n "1.IH" have d: "n div 10 = m div 10" by simp
      from ch have "(of_char (char_of (48 + n mod 10) :: char) :: nat)
                      = of_char (char_of (48 + m mod 10) :: char)"
        by simp
      moreover have "n mod 10 < 10" "m mod 10 < 10" by simp_all
      ultimately have "n mod 10 = m mod 10" by simp
      with d show ?thesis by (metis div_mult_mod_eq)
    qed
  qed
qed

lemma str_not_load: "str n \<noteq> ''load''"
proof
  assume "str n = ''load''"
  then have "CHR ''l'' \<in> set (str n)" by simp
  from str_digits [OF this] show False by simp
qed

lemma str_not_y: "str n \<noteq> ''y_t+1''"
proof
  assume "str n = ''y_t+1''"
  then have "CHR ''y'' \<in> set (str n)" by simp
  from str_digits [OF this] show False by simp
qed

lemma distinct_names:
  assumes "inj name"
  shows "distinct (map (\<lambda>t. name (T - t)) [1..<T + 1])"
proof -
  have "inj_on (\<lambda>t. name (T - t)) (set [1..<T + 1])"
  proof (rule inj_onI)
    fix x y
    assume x: "x \<in> set [1..<T + 1]" and y: "y \<in> set [1..<T + 1]"
      and "name (T - x) = name (T - y)"
    then have "T - x = T - y" using injD [OF assms] by blast
    moreover from x y have "x \<le> T" "y \<le> T" by auto
    ultimately show "x = y" by arith
  qed
  then show ?thesis by (simp add: distinct_map)
qed

lemma shifted_window:
  assumes "distinct (map fst s)" and "y \<noteq> ''load''" and "inj name"
    and "\<And>n. name n \<noteq> ''load'' \<and> name n \<noteq> y"
  shows "shifted y name T (single_column ''load'' s)
           = Inr (dropna (window_frame (y # map (\<lambda>t. name (T - t)) [1..<T + 1])
                                       (- 1 # map (\<lambda>t. int (T - t)) [1..<T + 1]) s))"
proof -
  have start: "single_column ''load'' s = window_frame [] [] s"
    by (simp add: single_column_def window_frame_def)
  have first: "add_shifted y ''load'' (- 1) (window_frame [] [] s) = Inr (window_frame [y] [- 1] s)"
    using add_shifted_window [OF assms(1), of y "[]" "- 1" "[]"] assms(2) by simp
  have loop: "shift_loop name T [1..<T + 1] (window_frame [y] [- 1] s)
      = Inr (window_frame ([y] @ map (\<lambda>t. name (T - t)) [1..<T + 1])
                          ([- 1] @ map (\<lambda>t. int (T - t)) [1..<T + 1]) s)"
    using assms(4) by (intro shift_loop_window assms(1) distinct_names assms(3)) simp
  show ?thesis
    unfolding shifted_def start first sum.case loop by simp
qed

lemma periods_set: "k \<in> set (map (\<lambda>t. int (T - t)) [1..<T + 1]) \<longleftrightarrow> 0 \<le> k \<and> k < int T"
proof
  assume "k \<in> set (map (\<lambda>t. int (T - t)) [1..<T + 1])"
  then show "0 \<le> k \<and> k < int T" by auto
next
  assume k: "0 \<le> k \<and> k < int T"
  then have "T - nat k \<in> set [1..<T + 1]" and "k = int (T - (T - nat k))"
    by auto
  then show "k \<in> set (map (\<lambda>t. int (T - t)) [1..<T + 1])"
    by (metis (no_types, lifting) image_eqI set_map)
qed

lemma rows_dropna_window:
  "rows (dropna (window_frame names ks s))
     = map (\<lambda>(t, v). (t, v # map (\<lambda>k. look s (t - k)) ks))
         (filter (\<lambda>(t, v). v \<noteq> None \<and> (\<forall>k \<in> set ks. has_value s (t - k))) s)"
  by (simp add: dropna_def window_frame_def filter_map comp_def case_prod_unfold
        list_all_iff has_value_def)

lemma index_dropna_window:
  assumes "distinct (map fst s)"
  shows "frame_index (dropna (window_frame names ks s))
     = filter (\<lambda>t. has_value s t \<and> (\<forall>k \<in> set ks. has_value s (t - k))) (map fst s)"
proof -
  have "filter (\<lambda>(t, v). v \<noteq> None \<and> (\<forall>k \<in> set ks. has_value s (t - k))) s
      = filter (\<lambda>r. has_value s (fst r) \<and> (\<forall>k \<in> set ks. has_value s (fst r - k))) s"
    using look_index [OF assms]
    by (intro filter_cong) (auto simp: has_value_def)
  then show ?thesis
    by (simp add: frame_index_def rows_dropna_window filter_map comp_def case_prod_unfold)
qed

lemma gapless_index:
  assumes "gapless s"
  shows "\<exists>t0. map fst s = [t0 .. t0 + int (length s) - 1]"
proof (cases s)
  case Nil
  then show ?thesis by simp
next
  case (Cons r rs)
  with assms show ?thesis by (auto simp: gapless_def)
qed

lemma gapless_distinct: "gapless s \<Longrightarrow> distinct (map fst s)"
  using gapless_index [of s] by auto

lemma gapless_has_value:
  assumes "gapless s" and "map fst s = [t0 .. t1]"
  shows "has_value s t \<longleftrightarrow> t0 \<le> t \<and> t \<le> t1"
proof
  assume "has_value s t"
  then obtain v where "map_of s t = Some v"
    by (auto simp: has_value_def look_def split: option.splits)
  then have "(t, v) \<in> set s" by (rule map_of_SomeD)
  then have "t \<in> set (map fst s)" by force
  with assms(2) show "t0 \<le> t \<and> t \<le> t1" by simp
next
  assume "t0 \<le> t \<and> t \<le> t1"
  with assms(2) have "t \<in> fst ` set s" by (metis atLeastAtMost_iff set_map set_upto)
  then obtain v where tv: "(t, v) \<in> set s" by auto
  with assms(1) have "v \<noteq> None" by (auto simp: gapless_def list_all_iff)
  with look_index [OF gapless_distinct [OF assms(1)] tv] show "has_value s t"
    by (simp add: has_value_def)
qed

lemma filter_upto:
  "filter (\<lambda>t. c \<le> t \<and> t \<le> d) [a..b] = [max a c .. min b d]"
  by (rule sorted_distinct_set_unique) (auto intro: sorted_wrt_filter)

lemma index_gapless_window:
  assumes "gapless s" and "map fst s = [t0 .. t1]" and "1 \<le> T"
  shows "frame_index (dropna (window_frame names (- 1 # map (\<lambda>t. int (T - t)) [1..<T + 1]) s))
           = [t0 + (int T - 1) .. t1 - 1]"
proof -
  have "filter (\<lambda>t. has_value s t \<and>
            (\<forall>k \<in> set (- 1 # map (\<lambda>t. int (T - t)) [1..<T + 1]). has_value s (t - k))) [t0..t1]
      = filter (\<lambda>t. t0 + (int T - 1) \<le> t \<and> t \<le> t1 - 1) [t0..t1]"
  proof (intro filter_cong refl)
    fix t
    have "(\<forall>k \<in> set (map (\<lambda>t. int (T - t)) [1..<T + 1]). has_value s (t - k))
            \<longleftrightarrow> (\<forall>k. 0 \<le> k \<and> k < int T \<longrightarrow> t0 \<le> t - k \<and> t - k \<le> t1)"
      unfolding gapless_has_value [OF assms(1,2)] using periods_set [of _ T] by blast
    also have "\<dots> \<longleftrightarrow> t0 \<le> t - (int T - 1) \<and> t \<le> t1"
    proof
      assume a: "\<forall>k. 0 \<le> k \<and> k < int T \<longrightarrow> t0 \<le> t - k \<and> t - k \<le> t1"
      from assms(3) a [rule_format, of 0] a [rule_format, of "int T - 1"]
      show "t0 \<le> t - (int T - 1) \<and> t \<le> t1" by simp
    next
      assume "t0 \<le> t - (int T - 1) \<and> t \<le> t1"
      then show "\<forall>k. 0 \<le> k \<and> k < int T \<longrightarrow> t0 \<le> t - k \<and> t - k \<le> t1" by auto
    qed
    finally show "(has_value s t \<and>
            (\<forall>k \<in> set (- 1 # map (\<lambda>t. int (T - t)) [1..<T + 1]). has_value s (t - k)))
       \<longleftrightarrow> (t0 + (int T - 1) \<le> t \<and> t \<le> t1 - 1)"
      using assms(3) by (auto simp: gapless_has_value [OF assms(1,2)])
  qed
  also have "\<dots> = [t0 + (int T - 1) .. t1 - 1]"
    by (subst filter_upto) (use assms(3) in simp)
  finally show ?thesis
    by (simp add: index_dropna_window [OF gapless_distinct [OF assms(1)]] assms(2))
qed

lemma train_shifted_window:
  assumes "distinct (map fst s)"
  shows "train_shifted T (single_column ''load'' s)
           = Inr (dropna (window_frame (''y_t+1'' # map (\<lambda>t. str (T - t)) [1..<T + 1])
                                       (- 1 # map (\<lambda>t. int (T - t)) [1..<T + 1]) s))"
  unfolding train_shifted_def
  by (intro shifted_window assms) (auto simp: inj_def str_not_load str_not_y dest: str_inj)

lemma has_value_index: "has_value s t \<Longrightarrow> t \<in> fst ` set s"
proof -
  assume "has_value s t"
  then obtain v where "map_of s t = Some v"
    by (auto simp: has_value_def look_def split: option.splits)
  then have "(t, v) \<in> set s" by (rule map_of_SomeD)
  then show ?thesis by force
qed

lemma window_needs_rows:
  assumes "has_value s (t + 1)" and "\<forall>k. 0 \<le> k \<and> k < int T \<longrightarrow> has_value s (t - k)"
  shows "T + 1 \<le> length s"
proof -
  have "{t - (int T - 1) .. t + 1} \<subseteq> fst ` set s"
  proof
    fix u assume u: "u \<in> {t - (int T - 1) .. t + 1}"
    show "u \<in> fst ` set s"
    proof (cases "u = t + 1")
      case True
      with assms(1) show ?thesis by (simp add: has_value_index)
    next
      case False
      with u have "0 \<le> t - u \<and> t - u < int T" by auto
      with assms(2) have "has_value s (t - (t - u))" by blast
      then show ?thesis by (simp add: has_value_index)
    qed
  qed
  then have "card {t - (int T - 1) .. t + 1} \<le> card (fst ` set s)"
    by (intro card_mono) auto
  also have "\<dots> \<le> length s"
    by (metis card_image_le card_length le_trans List.finite_set)
  finally show ?thesis by simp
qed

lemma short_table_empty:
  assumes "distinct (map fst s)" and "length s \<le> T"
  shows "rows (dropna (window_frame names (- 1 # map (\<lambda>t. int (T - t)) [1..<T + 1]) s)) = []"
proof -
  have "filter (\<lambda>(t, v). v \<noteq> None \<and>
          (\<forall>k \<in> set (- 1 # map (\<lambda>t. int (T - t)) [1..<T + 1]). has_value s (t - k))) s = []"
  proof (rule ccontr)
    assume "\<not> ?thesis"
    then obtain t v where "(t, v) \<in> set s"
      and all: "\<forall>k \<in> set (- 1 # map (\<lambda>t. int (T - t)) [1..<T + 1]). has_value s (t - k)"
      by (auto simp: filter_empty_conv)
    from all have "has_value s (t - (- 1))" by (metis list.set_intros(1))
    then have "has_value s (t + 1)" by simp
    moreover from all have "\<forall>k \<in> set (map (\<lambda>t. int (T - t)) [1..<T + 1]). has_value s (t - k)"
      by (metis list.set_intros(2))
    then have "\<forall>k. 0 \<le> k \<and> k < int T \<longrightarrow> has_value s (t - k)"
      using periods_set [of _ T] by blast
    ultimately have "T + 1 \<le> length s" by (rule window_needs_rows)
    with assms(2) show False by simp
  qed
  then show ?thesis by (simp add: rows_dropna_window)
qed

lemma gapless_in_range:
  assumes "gapless s"
  shows "has_value s t \<longleftrightarrow> in_range s t"
proof (cases s)
  case Nil
  then show ?thesis by (simp add: has_value_def look_def in_range_def)
next
  case (Cons r rs)
  with assms have idx: "map fst s = [fst r .. fst r + int (length s) - 1]"
    by (simp add: gapless_def)
  have "in_range s t \<longleftrightarrow> (\<exists>a \<in> set (map fst s). a \<le> t) \<and> (\<exists>b \<in> set (map fst s). t \<le> b)"
    by (simp add: in_range_def list_ex_iff)
  also have "\<dots> \<longleftrightarrow> fst r \<le> t \<and> t \<le> fst r + int (length s) - 1"
    unfolding idx using Cons by auto
  finally show ?thesis
    using gapless_has_value [OF assms idx] by simp
qed

lemma gaplessI:
  assumes "map fst s = [a..b]" and "list_all (\<lambda>r. snd r \<noteq> None) s"
  shows "gapless s"
proof (cases s)
  case Nil
  then show ?thesis by (simp add: gapless_def)
next
  case (Cons r rs)
  with assms(1) have ne: "a \<le> b" by (cases "a \<le> b") auto
  then have "[a..b] = a # [a + 1..b]" by (simp add: upto_rec1)
  with assms(1) Cons have a: "fst r = a" by simp
  have "length s = length [a..b]" using assms(1) by (metis length_map)
  with ne have "a + int (length s) - 1 = b" by simp
  with a assms Cons show ?thesis by (simp add: gapless_def)
qed

lemma filter_upto_iff:
  assumes "\<And>t. a \<le> t \<Longrightarrow> t \<le> b \<Longrightarrow> P t \<longleftrightarrow> c \<le> t \<and> t \<le> d"
  shows "filter P [a..b] = [max a c .. min b d]"
proof -
  have "filter P [a..b] = filter (\<lambda>t. c \<le> t \<and> t \<le> d) [a..b]"
    using assms by (intro filter_cong) auto
  then show ?thesis by (simp only: filter_upto)
qed

lemma slice_gapless:
  assumes "gapless s" and "map fst s = [a..b]"
    and "\<And>t. a \<le> t \<Longrightarrow> t \<le> b \<Longrightarrow> P t \<longleftrightarrow> c \<le> t \<and> t \<le> d"
  shows "gapless (map (\<lambda>(t, v). (t, map_option f v)) (filter (\<lambda>(t, v). P t) s))"
      (is "gapless ?s'")
    and "map fst (map (\<lambda>(t, v). (t, map_option f v)) (filter (\<lambda>(t, v). P t) s))
           = [max a c .. min b d]"
proof -
  have "map fst ?s' = map fst (filter (\<lambda>(t, v). P t) s)"
    by (simp add: comp_def case_prod_unfold)
  also have "\<dots> = filter P (map fst s)"
    by (simp add: filter_map comp_def case_prod_unfold)
  also have "\<dots> = [max a c .. min b d]"
    unfolding assms(2) by (rule filter_upto_iff) (rule assms(3))
  finally show idx: "map fst ?s' = [max a c .. min b d]" .
  have "list_all (\<lambda>r. snd r \<noteq> None) ?s'"
    using assms(1) by (auto simp: gapless_def list_all_iff)
  with idx show "gapless ?s'" by (rule gaplessI)
qed

lemma transform_single_column:
  "transform f (single_column c s) = single_column c (map (\<lambda>(t, v). (t, map_option f v)) s)"
  by (simp add: transform_def single_column_def case_prod_unfold comp_def)

lemma load_t_window:
  assumes "distinct (map fst s)" and "y = ''y+1'' \<or> y = ''y_t+1''"
  shows "shifted y (\<lambda>n. ''load_t-'' @ str n) T (single_column ''load'' s)
           = Inr (dropna (window_frame (y # map (\<lambda>t. ''load_t-'' @ str (T - t)) [1..<T + 1])
                                       (- 1 # map (\<lambda>t. int (T - t)) [1..<T + 1]) s))"
  using assms(2)
  by (intro shifted_window assms(1)) (auto simp: inj_def dest: str_inj)

lemma align_same_length: "length xs = length ys \<Longrightarrow> align xs ys = zip xs ys"
  by (induction xs ys rule: list_induct2) simp_all

lemma mape_ape:
  assumes "length ps = length as"
  shows "mape ps as = mean (map ape (zip ps as))"
proof -
  have "map (\<lambda>(x, y). fdiv x y)
          (zip (map fabs (map (\<lambda>(x, y). fsub x y) (zip ps as))) as)
      = map ape (zip ps as)"
    using assms by (induction ps as rule: list_induct2) (simp_all add: ape_def)
  then show ?thesis
    using assms by (simp add: mape_def series_op_def align_same_length)
qed

lemma ape_in_elements:
  "(p, a) \<in> set (zip ps as)
     \<Longrightarrow> ape (p, a) \<in> set (series_op fdiv (map fabs (series_op fsub ps as)) as)"
proof (induction ps arbitrary: as)
  case Nil
  then show ?case by simp
next
  case (Cons x xs)
  show ?case
  proof (cases as)
    case Nil
    with Cons.prems show ?thesis by simp
  next
    case (Cons y ys)
    with Cons.prems have "(p, a) = (x, y) \<or> (p, a) \<in> set (zip xs ys)" by auto
    then show ?thesis
    proof
      assume "(p, a) = (x, y)"
      with Cons show ?thesis by (simp add: series_op_def ape_def)
    next
      assume "(p, a) \<in> set (zip xs ys)"
      from Cons.IH [OF this] Cons show ?thesis by (simp add: series_op_def)
    qed
  qed
qed

lemma ape_nonzero_actual:
  assumes "finite_value p" and "finite_value a" and "\<not> is_zero a"
  shows "finite_value (ape (p, a))"
    and "number (ape (p, a)) = \<bar>number p - number a\<bar> / number a"
  using assms by (cases p; cases a; simp add: ape_def)+

lemma ape_zero_zero: "is_zero p \<Longrightarrow> is_zero a \<Longrightarrow> ape (p, a) = NaN"
  by (cases p; cases a; simp add: ape_def)

lemma ape_zero_nonzero:
  "is_zero a \<Longrightarrow> \<not> is_zero p \<Longrightarrow> p \<noteq> NaN \<Longrightarrow> ape (p, a) = PInf \<or> ape (p, a) = NInf"
  by (cases p; cases a; simp add: ape_def)

lemma finite_value_not_NaN: "finite_value x \<Longrightarrow> x \<noteq> NaN"
  by (cases x) simp_all

lemma foldl_fadd_finite:
  "list_all finite_value xs \<Longrightarrow> foldl fadd (Num c) xs = Num (c + sum_list (map number xs))"
proof (induction xs arbitrary: c)
  case Nil
  then show ?case by simp
next
  case (Cons x xs)
  then show ?case by (cases x) (simp_all add: add.assoc)
qed

lemma fadd_special_left: "acc \<in> {PInf, NInf, NaN} \<Longrightarrow> fadd acc x \<in> {PInf, NInf, NaN}"
  by (cases acc; cases x; simp)

lemma fadd_special_right: "x \<in> {PInf, NInf} \<Longrightarrow> fadd acc x \<in> {PInf, NInf, NaN}"
  by (cases acc; cases x; simp)

lemma foldl_fadd_special_acc:
  "acc \<in> {PInf, NInf, NaN} \<Longrightarrow> foldl fadd acc xs \<in> {PInf, NInf, NaN}"
proof (induction xs arbitrary: acc)
  case Nil
  then show ?case by simp
next
  case (Cons x xs)
  from Cons.IH [OF fadd_special_left [OF Cons.prems]] show ?case by simp
qed

lemma foldl_fadd_special_elem:
  "x \<in> set xs \<Longrightarrow> x \<in> {PInf, NInf} \<Longrightarrow> foldl fadd acc xs \<in> {PInf, NInf, NaN}"
proof (induction xs arbitrary: acc)
  case Nil
  then show ?case by simp
next
  case (Cons y ys)
  show ?case
  proof (cases "x = y")
    case True
    with Cons.prems(2) have "fadd acc y \<in> {PInf, NInf, NaN}"
      by (intro fadd_special_right) simp
    from foldl_fadd_special_acc [OF this] show ?thesis by simp
  next
    case False
    with Cons.prems have "x \<in> set ys" by simp
    from Cons.IH [OF this Cons.prems(2)] show ?thesis by simp
  qed
qed

lemma mean_infinite_element:
  assumes "x \<in> set xs" and "x \<in> {PInf, NInf}"
  shows "mean xs \<in> {PInf, NInf, NaN}"
proof -
  let ?vals = "filter (\<lambda>x. x \<noteq> NaN) xs"
  from assms have in_vals: "x \<in> set ?vals" by auto
  then have ne: "?vals \<noteq> []" by (metis empty_iff empty_set)
  then have pos: "0 < real (length ?vals)" by simp
  have "foldl fadd (Num 0) ?vals \<in> {PInf, NInf, NaN}"
    using in_vals assms(2) by (rule foldl_fadd_special_elem)
  then have "fdiv (foldl fadd (Num 0) ?vals) (Num (real (length ?vals))) \<in> {PInf, NInf, NaN}"
    using pos by (cases "foldl fadd (Num 0) ?vals") auto
  with ne show ?thesis by (simp add: mean_def Let_def)
qed

lemma mean_finite_elements:
  assumes "list_all finite_value xs"
  shows "mean xs = (if xs = [] then NaN
                    else Num (sum_list (map number xs) / real (length xs)))"
proof -
  have keep: "filter (\<lambda>x. x \<noteq> NaN) xs = xs"
    using assms by (auto simp: filter_id_conv list_all_iff dest: finite_value_not_NaN)
  show ?thesis
  proof (cases "xs = []")
    case True
    then show ?thesis by (simp add: mean_def)
  next
    case False
    then have "real (length xs) \<noteq> 0" by simp
    with False show ?thesis
      by (simp add: mean_def Let_def keep foldl_fadd_finite [OF assms])
  qed
qed

lemma mean_skips_NaN: "mean (filter (\<lambda>x. x \<noteq> NaN) xs) = mean xs"
  by (simp add: mean_def)

lemma mape_skips_zero_pairs:
  assumes "length ps = length as"
    and "list_all finite_value ps" and "list_all finite_value as"
    and "list_all (\<lambda>(p, a). is_zero a \<longrightarrow> is_zero p) (zip ps as)"
  shows "mape ps as =
     (if filter (\<lambda>(p, a). \<not> is_zero a) (zip ps as) = [] then NaN
      else Num (sum_list (map (\<lambda>(p, a). \<bar>number p - number a\<bar> / number a)
                           (filter (\<lambda>(p, a). \<not> is_zero a) (zip ps as)))
                / real (length (filter (\<lambda>(p, a). \<not> is_zero a) (zip ps as)))))"
proof -
  let ?Z = "zip ps as"
  let ?K = "filter (\<lambda>(p, a). \<not> is_zero a) ?Z"
  have fin: "finite_value p \<and> finite_value a" if "(p, a) \<in> set ?Z" for p a
    using that assms(2,3) by (auto simp: list_all_iff dest: set_zip_leftD set_zip_rightD)
  have nan_iff: "ape (p, a) \<noteq> NaN \<longleftrightarrow> \<not> is_zero a" if "(p, a) \<in> set ?Z" for p a
  proof (cases "is_zero a")
    case True
    with that assms(4) have "is_zero p" by (auto simp: list_all_iff)
    with True show ?thesis by (simp add: ape_zero_zero)
  next
    case False
    with fin [OF that] ape_nonzero_actual(1) [of p a] show ?thesis
      by (auto dest: finite_value_not_NaN)
  qed
  have "filter (\<lambda>x. x \<noteq> NaN) (map ape ?Z) = map ape (filter (\<lambda>pa. ape pa \<noteq> NaN) ?Z)"
    by (simp add: filter_map comp_def)
  also have "filter (\<lambda>pa. ape pa \<noteq> NaN) ?Z = ?K"
    using nan_iff by (intro filter_cong refl) auto
  finally have vals: "filter (\<lambda>x. x \<noteq> NaN) (map ape ?Z) = map ape ?K" .
  have finK: "list_all finite_value (map ape ?K)"
    using fin ape_nonzero_actual(1) by (auto simp: list_all_iff)
  have numK: "map number (map ape ?K) = map (\<lambda>(p, a). \<bar>number p - number a\<bar> / number a) ?K"
    using fin ape_nonzero_actual(2) by (auto simp: list_all_iff)
  have "mape ps as = mean (filter (\<lambda>x. x \<noteq> NaN) (map ape ?Z))"
    by (simp only: mape_ape [OF assms(1)] mean_skips_NaN)
  also have "\<dots> = mean (map ape ?K)" by (simp only: vals)
  also have "\<dots> = (if map ape ?K = [] then NaN
                      else Num (sum_list (map number (map ape ?K)) / real (length (map ape ?K))))"
    by (rule mean_finite_elements [OF finK])
  finally show ?thesis by (simp only: numK length_map map_is_Nil_conv)
qed

lemma labels2: "map (\<lambda>t. ''t+'' @ str t) [1..<2 + 1] = [''t+1'', ''t+2'']"
  by code_simp

lemma upt_0_2: "[0..<2] = [0, 1]" and upt_0_1: "[0..<1] = [0]"
  by code_simp+

lemma DataFrame_rows:
  "DataFrame predictions labels = Inr wide \<Longrightarrow> length wide = shape0 predictions"
  by (cases predictions) (auto split: if_splits)

lemma DataFrame_error: "DataFrame predictions labels = Inl e \<Longrightarrow> e = ValueError"
  by (cases predictions) (auto split: if_splits)

lemma labels1: "map (\<lambda>t. ''t+'' @ str t) [1..<1 + 1] = [''t+1'']"
  by code_simp

section \<open>The claims\<close>

subsection \<open>C1: the number of samples of a gapless table\<close>

text \<open>
  Claim C1, as amended.  The notebook's construction has the lookback offsets
  \<open>t-(T-1), \<dots>, t\<close> and the horizon \<open>1\<close>, so that the span is \<open>(T - 1) + 1\<close>.  For
  every gapless table and every \<open>T \<ge> 1\<close> the construction returns a frame, and the
  number of its samples is the length of the table minus the span when the table is at
  least that long, and zero otherwise.
\<close>

theorem sample_count_gapless:
  assumes "gapless s" and "1 \<le> T"
  shows "sample_count (train_shifted T (single_column ''load'' s))
           = Inr (max 0 (int (length s) - ((int T - 1) + 1)))"
proof -
  obtain t0 where idx: "map fst s = [t0 .. t0 + int (length s) - 1]"
    using gapless_index [OF assms(1)] by blast
  have "length (rows (dropna (window_frame (''y_t+1'' # map (\<lambda>t. str (T - t)) [1..<T + 1])
                                       (- 1 # map (\<lambda>t. int (T - t)) [1..<T + 1]) s)))
     = length (frame_index (dropna (window_frame (''y_t+1'' # map (\<lambda>t. str (T - t)) [1..<T + 1])
                                       (- 1 # map (\<lambda>t. int (T - t)) [1..<T + 1]) s)))"
    by (simp add: frame_index_def)
  also have "\<dots> = length [t0 + (int T - 1) .. t0 + int (length s) - 1 - 1]"
    by (simp only: index_gapless_window [OF assms(1) idx assms(2)])
  also have "\<dots> = nat (int (length s) - int T)"
    by simp
  finally show ?thesis
    by (simp add: sample_count_def train_shifted_window [OF gapless_distinct [OF assms(1)]] max_def)
qed

text \<open>The statement of C1 at a gapless table of five rows with \<open>T = 3\<close>: two samples.\<close>

theorem sample_count_gapless_witness:
  "gapless [(0::int, Some (1::real)), (1, Some 2), (2, Some 3), (3, Some 4), (4, Some 5)]
   \<and> 1 \<le> (3::nat)
   \<and> sample_count (train_shifted 3 (single_column ''load''
        [(0::int, Some (1::real)), (1, Some 2), (2, Some 3), (3, Some 4), (4, Some 5)])) = Inr 2"
proof -
  have g: "gapless [(0::int, Some (1::real)), (1, Some 2), (2, Some 3), (3, Some 4), (4, Some 5)]"
    by code_simp
  have t: "1 \<le> (3::nat)" by simp
  show ?thesis using sample_count_gapless [OF g t] g by simp
qed

text \<open>
  Claim C1 as it is worded gives the number of samples as the plain difference.  On a
  gapless table of two rows with \<open>T = 6\<close> the construction yields no sample, while the
  difference is \<open>- 4\<close>.
\<close>

theorem sample_count_counterexample:
  "gapless [(0::int, Some (1::real)), (1, Some 2)]
   \<and> sample_count (train_shifted 6 (single_column ''load'' [(0::int, Some (1::real)), (1, Some 2)])) = Inr 0
   \<and> int (length [(0::int, Some (1::real)), (1, Some 2)]) - ((int 6 - 1) + 1) = - 4"
  by code_simp

subsection \<open>C2: ten hourly rows, \<open>T = 3\<close>\<close>

text \<open>
  Claim C2, as amended.  For the ten hourly rows \<open>load = 1, \<dots>, 10\<close> and \<open>T = 3\<close> (the
  columns \<^verbatim>\<open>'2'\<close>, \<^verbatim>\<open>'1'\<close>, \<^verbatim>\<open>'0'\<close> hold the offsets \<open>t-2\<close>, \<open>t-1\<close>, \<open>t\<close>) the
  construction yields exactly seven samples, anchored at the hours \<open>2, \<dots>, 8\<close>; the
  input sequence of the first sample is \<open>[1, 2, 3]\<close> and its target is \<open>4\<close>.
\<close>

theorem ten_rows_seven_samples:
  "surviving_anchors (train_shifted 3 (single_column ''load''
      [(0::int, Some (1::real)), (1, Some 2), (2, Some 3), (3, Some 4), (4, Some 5),
       (5, Some 6), (6, Some 7), (7, Some 8), (8, Some 9), (9, Some 10)]))
     = Inr [2, 3, 4, 5, 6, 7, 8]
   \<and> sample_count (train_shifted 3 (single_column ''load''
      [(0::int, Some (1::real)), (1, Some 2), (2, Some 3), (3, Some 4), (4, Some 5),
       (5, Some 6), (6, Some 7), (7, Some 8), (8, Some 9), (9, Some 10)])) = Inr 7
   \<and> and_then (train_shifted 3 (single_column ''load''
      [(0::int, Some (1::real)), (1, Some 2), (2, Some 3), (3, Some 4), (4, Some 5),
       (5, Some 6), (6, Some 7), (7, Some 8), (8, Some 9), (9, Some 10)]))
        (\<lambda>df. as_matrix df [''2'', ''1'', ''0''])
     = Inr [[Some 1, Some 2, Some 3], [Some 2, Some 3, Some 4], [Some 3, Some 4, Some 5],
            [Some 4, Some 5, Some 6], [Some 5, Some 6, Some 7], [Some 6, Some 7, Some 8],
            [Some 7, Some 8, Some 9]]
   \<and> and_then (train_shifted 3 (single_column ''load''
      [(0::int, Some (1::real)), (1, Some 2), (2, Some 3), (3, Some 4), (4, Some 5),
       (5, Some 6), (6, Some 7), (7, Some 8), (8, Some 9), (9, Some 10)]))
        (\<lambda>df. as_matrix df [''y_t+1''])
     = Inr [[Some 4], [Some 5], [Some 6], [Some 7], [Some 8], [Some 9], [Some 10]]"
  by code_simp

text \<open>Claim C2 as it is worded has six samples; the construction does not return six.\<close>

theorem ten_rows_counterexample:
  "sample_count (train_shifted 3 (single_column ''load''
      [(0::int, Some (1::real)), (1, Some 2), (2, Some 3), (3, Some 4), (4, Some 5),
       (5, Some 6), (6, Some 7), (7, Some 8), (8, Some 9), (9, Some 10)])) \<noteq> Inr 6"
  by code_simp

subsection \<open>C4: which anchors survive\<close>

text \<open>
  Claim C4, as amended.  For every table with pairwise different timestamps the
  construction returns a frame in which no cell is missing.  A timestamp is an anchor of
  that frame if and only if the table holds a value at the timestamp itself, at the
  target offset \<open>t+1\<close> and at every lookback offset \<open>t-j\<close>, \<open>j < T\<close>.  When the table is
  gapless, holding a value is the same as lying inside the time range of the table, and
  the anchors are exactly the timestamps all of whose offsets lie inside that range.
\<close>

theorem anchors_complete:
  assumes "distinct (map fst s)"
  shows "\<exists>df. train_shifted T (single_column ''load'' s) = Inr df
           \<and> list_all (\<lambda>r. list_all (\<lambda>v. v \<noteq> None) (snd r)) (rows df)
           \<and> (\<forall>t. t \<in> set (frame_index df) \<longleftrightarrow>
                 has_value s t \<and> has_value s (t + 1) \<and> (\<forall>j < T. has_value s (t - int j)))
           \<and> (gapless s \<longrightarrow>
                (\<forall>t. t \<in> set (frame_index df) \<longleftrightarrow>
                   in_range s t \<and> in_range s (t + 1) \<and> (\<forall>j < T. in_range s (t - int j))))"
proof -
  let ?ks = "- 1 # map (\<lambda>t. int (T - t)) [1..<T + 1]"
  let ?df = "dropna (window_frame (''y_t+1'' # map (\<lambda>t. str (T - t)) [1..<T + 1]) ?ks s)"
  have run: "train_shifted T (single_column ''load'' s) = Inr ?df"
    by (rule train_shifted_window [OF assms])
  have complete: "list_all (\<lambda>r. list_all (\<lambda>v. v \<noteq> None) (snd r)) (rows ?df)"
    by (auto simp: dropna_def list_all_iff)
  have anchors: "t \<in> set (frame_index ?df) \<longleftrightarrow>
      has_value s t \<and> has_value s (t + 1) \<and> (\<forall>j < T. has_value s (t - int j))" for t
  proof -
    have "(\<forall>k \<in> set (map (\<lambda>t. int (T - t)) [1..<T + 1]). has_value s (t - k))
            \<longleftrightarrow> (\<forall>k. 0 \<le> k \<and> k < int T \<longrightarrow> has_value s (t - k))"
      using periods_set [of _ T] by blast
    also have "\<dots> \<longleftrightarrow> (\<forall>j < T. has_value s (t - int j))"
    proof
      assume a: "\<forall>k. 0 \<le> k \<and> k < int T \<longrightarrow> has_value s (t - k)"
      show "\<forall>j < T. has_value s (t - int j)"
        using a by simp
    next
      assume a: "\<forall>j < T. has_value s (t - int j)"
      show "\<forall>k. 0 \<le> k \<and> k < int T \<longrightarrow> has_value s (t - k)"
      proof (intro allI impI)
        fix k :: int assume "0 \<le> k \<and> k < int T"
        then have "nat k < T" and "int (nat k) = k" by auto
        with a show "has_value s (t - k)" by metis
      qed
    qed
    finally have ks: "(\<forall>k \<in> set ?ks. has_value s (t - k))
        \<longleftrightarrow> has_value s (t + 1) \<and> (\<forall>j < T. has_value s (t - int j))"
      by simp
    have "t \<in> set (frame_index ?df) \<longleftrightarrow>
        t \<in> set (map fst s) \<and> has_value s t \<and> (\<forall>k \<in> set ?ks. has_value s (t - k))"
      unfolding index_dropna_window [OF assms] by auto
    also have "\<dots> \<longleftrightarrow> has_value s t \<and> (\<forall>k \<in> set ?ks. has_value s (t - k))"
      using has_value_index [of s t] by auto
    finally show ?thesis unfolding ks .
  qed
  have "gapless s \<longrightarrow>
      (\<forall>t. t \<in> set (frame_index ?df) \<longleftrightarrow>
         in_range s t \<and> in_range s (t + 1) \<and> (\<forall>j < T. in_range s (t - int j)))"
    using anchors by (simp add: gapless_in_range)
  with run complete anchors show ?thesis by blast
qed

text \<open>The statement of C4 at that table: the anchor \<open>2\<close> survives, the anchor \<open>0\<close> does not.\<close>

theorem anchors_complete_witness:
  "distinct (map fst [(0::int, Some (1::real)), (1, None), (2, Some 3), (3, Some 4)])
   \<and> (\<exists>df. train_shifted 1 (single_column ''load''
              [(0::int, Some (1::real)), (1, None), (2, Some 3), (3, Some 4)]) = Inr df
         \<and> 2 \<in> set (frame_index df) \<and> 0 \<notin> set (frame_index df))"
proof -
  let ?s = "[(0::int, Some (1::real)), (1, None), (2, Some 3), (3, Some 4)]"
  have d: "distinct (map fst ?s)" by simp
  have v: "has_value ?s 2" "has_value ?s (2 + 1)" "\<not> has_value ?s (0 + 1)"
    by (simp_all add: has_value_def look_def)
  from anchors_complete [OF d, of 1] obtain df where
    run: "train_shifted 1 (single_column ''load'' ?s) = Inr df"
    and iff: "\<And>t. t \<in> set (frame_index df) \<longleftrightarrow>
                 has_value ?s t \<and> has_value ?s (t + 1) \<and> (\<forall>j < 1. has_value ?s (t - int j))"
    by blast
  from iff [of 2] v have "2 \<in> set (frame_index df)" by simp
  moreover from iff [of 0] v have "0 \<notin> set (frame_index df)" by simp
  ultimately show ?thesis using run d by blast
qed

text \<open>
  Claim C4 as it is worded asks for the offsets to lie inside the time range only.  In a
  table of the hours \<open>0, \<dots>, 3\<close> whose value at hour \<open>1\<close> is missing, with \<open>T = 1\<close>, the
  offsets \<open>t\<close> and \<open>t+1\<close> of the anchor \<open>0\<close> lie inside the range, and the anchor does not
  survive: the only surviving anchor is \<open>2\<close>.
\<close>

theorem anchors_complete_counterexample:
  "surviving_anchors (train_shifted 1 (single_column ''load''
      [(0::int, Some (1::real)), (1, None), (2, Some 3), (3, Some 4)])) = Inr [2]
   \<and> in_range [(0::int, Some (1::real)), (1, None), (2, Some 3), (3, Some 4)] 0
   \<and> in_range [(0::int, Some (1::real)), (1, None), (2, Some 3), (3, Some 4)] (0 + 1)"
  by code_simp

subsection \<open>C5: a table shorter than the horizon or the lookback\<close>

text \<open>
  Claim C5.  The horizon of the construction is \<open>1\<close> and its maximum lookback offset is
  \<open>T - 1\<close>.  For every table (its timestamps pairwise different) that is shorter than the
  horizon or than the maximum lookback offset, the construction does not raise: it
  returns the frame with all its columns and no row.
\<close>

theorem short_table_zero_samples:
  assumes "distinct (map fst s)"
    and "length s < 1 \<or> int (length s) < int T - 1"
  shows "train_shifted T (single_column ''load'' s)
           = Inr \<lparr>columns = ''load'' # ''y_t+1'' # map (\<lambda>t. str (T - t)) [1..<T + 1], rows = []\<rparr>"
proof -
  from assms(2) have "length s \<le> T" by auto
  from short_table_empty [OF assms(1) this]
  show ?thesis
    by (simp add: train_shifted_window [OF assms(1)] dropna_def window_frame_def)
qed

text \<open>The statement of C5 at a table of two rows with \<open>T = 6\<close>.\<close>

theorem short_table_zero_samples_witness:
  "distinct (map fst [(0::int, Some (1::real)), (1, Some 2)])
   \<and> (length [(0::int, Some (1::real)), (1, Some 2)] < 1 \<or> int (length [(0::int, Some (1::real)), (1, Some 2)]) < int 6 - 1)
   \<and> train_shifted 6 (single_column ''load'' [(0::int, Some (1::real)), (1, Some 2)])
       = Inr \<lparr>columns = [''load'', ''y_t+1'', ''5'', ''4'', ''3'', ''2'', ''1'', ''0''], rows = []\<rparr>"
proof -
  have d: "distinct (map fst [(0::int, Some (1::real)), (1, Some 2)])" by simp
  have l: "length [(0::int, Some (1::real)), (1, Some 2)] < 1 \<or> int (length [(0::int, Some (1::real)), (1, Some 2)]) < int 6 - 1"
    by simp
  have n: "map (\<lambda>t. str (6 - t)) [1..<6 + 1] = [''5'', ''4'', ''3'', ''2'', ''1'', ''0'']"
    by code_simp
  show ?thesis
    using short_table_zero_samples [OF d l] d l unfolding n by simp
qed

subsection \<open>C10: the first anchors of the test and validation splits\<close>

text \<open>
  Claim C10.  Let the data be gapless from hour \<open>e0\<close> to hour \<open>e1\<close>, let the lookback
  hours before \<^verbatim>\<open>valid_start_dt\<close> be part of the data, and let
  \<^verbatim>\<open>valid_start_dt \<le> test_start_dt \<le> e1\<close>.  The test split starts at
  \<^verbatim>\<open>test_start_dt\<close>, so that the anchors of the test samples are the hours from
  \<^verbatim>\<open>test_start_dt + (T-1)\<close> to \<open>e1 - 1\<close>: none lies in the first \<open>T-1\<close> hours of the
  test period.  The validation split starts \<open>T-1\<close> hours before \<^verbatim>\<open>valid_start_dt\<close>, so
  that the anchors of the validation samples start at \<^verbatim>\<open>valid_start_dt\<close> itself.
\<close>

theorem test_anchors_start_late:
  assumes "gapless energy" and "map fst energy = [e0..e1]" and "1 \<le> T"
    and "e0 \<le> valid_start_dt - (int T - 1)" and "valid_start_dt \<le> test_start_dt"
    and "test_start_dt \<le> e1"
  shows "surviving_anchors (test_shifted T (transform f (test T test_start_dt energy)))
           = Inr [test_start_dt + (int T - 1) .. e1 - 1]
       \<and> surviving_anchors
            (valid_shifted T (transform f (valid T valid_start_dt test_start_dt energy)))
           = Inr [valid_start_dt .. test_start_dt - 2]"
proof -
  let ?ks = "- 1 # map (\<lambda>t. int (T - t)) [1..<T + 1]"
  let ?ts = "map (\<lambda>(t, v). (t, map_option f v)) (filter (\<lambda>(t, v). test_start_dt \<le> t) energy)"
  let ?vs = "map (\<lambda>(t, v). (t, map_option f v))
               (filter (\<lambda>(t, v). valid_start_dt - (int T - 1) \<le> t \<and> t < test_start_dt) energy)"
  have tp: "test_start_dt \<le> t \<longleftrightarrow> test_start_dt \<le> t \<and> t \<le> e1" if "e0 \<le> t" "t \<le> e1" for t
    using that by simp
  have vp: "valid_start_dt - (int T - 1) \<le> t \<and> t < test_start_dt
             \<longleftrightarrow> valid_start_dt - (int T - 1) \<le> t \<and> t \<le> test_start_dt - 1"
    if "e0 \<le> t" "t \<le> e1" for t
    by auto
  have tg: "gapless ?ts" and ti: "map fst ?ts = [max e0 test_start_dt .. min e1 e1]"
    using slice_gapless [OF assms(1,2), where P = "\<lambda>t. test_start_dt \<le> t" and f = f, OF tp]
    by blast+
  have vg: "gapless ?vs"
    and vi: "map fst ?vs = [max e0 (valid_start_dt - (int T - 1)) .. min e1 (test_start_dt - 1)]"
    using slice_gapless [OF assms(1,2),
        where P = "\<lambda>t. valid_start_dt - (int T - 1) \<le> t \<and> t < test_start_dt" and f = f, OF vp]
    by blast+
  from ti assms have ti': "map fst ?ts = [test_start_dt .. e1]" by (simp add: max_def)
  from vi assms have vi': "map fst ?vs = [valid_start_dt - (int T - 1) .. test_start_dt - 1]"
    by (simp add: max_def min_def)
  have "test_shifted T (transform f (test T test_start_dt energy))
      = Inr (dropna (window_frame (''y_t+1'' # map (\<lambda>t. ''load_t-'' @ str (T - t)) [1..<T + 1]) ?ks ?ts))"
    unfolding test_shifted_def test_def Let_def transform_single_column
    by (rule load_t_window [OF gapless_distinct [OF tg]]) simp
  then have t: "surviving_anchors (test_shifted T (transform f (test T test_start_dt energy)))
      = Inr [test_start_dt + (int T - 1) .. e1 - 1]"
    by (simp only: surviving_anchors_def sum.case index_gapless_window [OF tg ti' assms(3)])
  have "valid_shifted T (transform f (valid T valid_start_dt test_start_dt energy))
      = Inr (dropna (window_frame (''y+1'' # map (\<lambda>t. ''load_t-'' @ str (T - t)) [1..<T + 1]) ?ks ?vs))"
    unfolding valid_shifted_def valid_def Let_def transform_single_column
    by (rule load_t_window [OF gapless_distinct [OF vg]]) simp
  then have "surviving_anchors
            (valid_shifted T (transform f (valid T valid_start_dt test_start_dt energy)))
      = Inr [valid_start_dt - (int T - 1) + (int T - 1) .. test_start_dt - 1 - 1]"
    by (simp only: surviving_anchors_def sum.case index_gapless_window [OF vg vi' assms(3)])
  with t show ?thesis by simp
qed

text \<open>The statement of C10 at ten hours of data, \<open>T = 3\<close>, the validation period starting
  at hour \<open>2\<close> and the test period at hour \<open>5\<close>.\<close>

theorem test_anchors_start_late_witness:
  "gapless [(0::int, Some (1::real)), (1, Some 2), (2, Some 3), (3, Some 4), (4, Some 5),
            (5, Some 6), (6, Some 7), (7, Some 8), (8, Some 9), (9, Some 10)]
   \<and> surviving_anchors (test_shifted 3 (transform (\<lambda>x. x / 10) (test 3 5
        [(0::int, Some (1::real)), (1, Some 2), (2, Some 3), (3, Some 4), (4, Some 5),
         (5, Some 6), (6, Some 7), (7, Some 8), (8, Some 9), (9, Some 10)]))) = Inr [7, 8]
   \<and> surviving_anchors (valid_shifted 3 (transform (\<lambda>x. x / 10) (valid 3 2 5
        [(0::int, Some (1::real)), (1, Some 2), (2, Some 3), (3, Some 4), (4, Some 5),
         (5, Some 6), (6, Some 7), (7, Some 8), (8, Some 9), (9, Some 10)]))) = Inr [2, 3]"
proof -
  let ?e = "[(0::int, Some (1::real)), (1, Some 2), (2, Some 3), (3, Some 4), (4, Some 5),
            (5, Some 6), (6, Some 7), (7, Some 8), (8, Some 9), (9, Some 10)]"
  have g: "gapless ?e" by code_simp
  have i: "map fst ?e = [0..9]" by code_simp
  have u: "[5 + (int 3 - 1) .. 9 - 1] = [7, 8]" "[2 .. 5 - 2] = [2, 3::int]" by code_simp+
  show ?thesis
    using test_anchors_start_late [OF g i, of 3 2 5 "\<lambda>x. x / 10"] g unfolding u by simp
qed

subsection \<open>C3: the evaluation frame of two samples and horizon two\<close>

text \<open>
  Claim C3, as amended.  For two samples and horizon \<open>2\<close>, the predictions
  \<open>[[0.1, 0.2], [0.3, 0.4]]\<close> and the identity as inverse scaler, the evaluation frame
  has exactly four rows, labelled \<^verbatim>\<open>t+1\<close> and \<^verbatim>\<open>t+2\<close>, grouped by horizon step and,
  within a step, ordered by anchor: \<open>(anchor0, t+1, 0.1)\<close>, \<open>(anchor1, t+1, 0.3)\<close>,
  \<open>(anchor0, t+2, 0.2)\<close>, \<open>(anchor1, t+2, 0.4)\<close>.  The actual value of each row is the
  entry of the target tensor at the same anchor and horizon step.
\<close>

theorem eval_frame_two_by_two:
  "eval_df (Array2 2 [[0.1, 0.2], [0.3, 0.4]]) [anchor0, anchor1]
           (Array2 2 [[y00, y01], [y10, y11]]) 2 id
   = Inr [\<lparr>timestamp = Some anchor0, h = Some ''t+1'', prediction = Some 0.1, actual = Some y00\<rparr>,
          \<lparr>timestamp = Some anchor1, h = Some ''t+1'', prediction = Some 0.3, actual = Some y10\<rparr>,
          \<lparr>timestamp = Some anchor0, h = Some ''t+2'', prediction = Some 0.2, actual = Some y01\<rparr>,
          \<lparr>timestamp = Some anchor1, h = Some ''t+2'', prediction = Some 0.4, actual = Some y11\<rparr>]"
  unfolding eval_df_def Let_def labels2
  by (simp add: set_timestamp_def melt_def set_actual_def upt_0_2)

text \<open>
  Claim C3 as it is worded lists the rows anchor by anchor.  With the anchors \<open>0\<close> and
  \<open>1\<close> and the targets \<open>[[1, 2], [3, 4]]\<close> the frame is not that list.
\<close>

theorem eval_frame_order_counterexample:
  "eval_df (Array2 2 [[0.1, 0.2], [0.3, 0.4]]) [0, 1] (Array2 2 [[1, 2], [3, 4]]) 2 id
   \<noteq> Inr [\<lparr>timestamp = Some 0, h = Some ''t+1'', prediction = Some 0.1, actual = Some 1\<rparr>,
           \<lparr>timestamp = Some 0, h = Some ''t+2'', prediction = Some 0.2, actual = Some 2\<rparr>,
           \<lparr>timestamp = Some 1, h = Some ''t+1'', prediction = Some 0.3, actual = Some 3\<rparr>,
           \<lparr>timestamp = Some 1, h = Some ''t+2'', prediction = Some 0.4, actual = Some 4\<rparr>]"
  unfolding eval_df_def Let_def labels2
  by (simp add: set_timestamp_def melt_def set_actual_def upt_0_2)

subsection \<open>C6: predictions that do not match the anchors\<close>

text \<open>
  Claim C6, as amended.  For every predictions array with at least one sample whose
  number of samples differs from the number of surviving anchors, building the
  evaluation frame fails: storing the timestamps raises \<^verbatim>\<open>ValueError\<close>, the only error
  of the code (it defines no error class of its own).
\<close>

theorem sample_count_mismatch_fails:
  assumes "shape0 predictions \<noteq> length test_index" and "0 < shape0 predictions"
  shows "eval_df predictions test_index y_test HORIZON inverse_transform = Inl ValueError"
proof (cases "DataFrame predictions (map (\<lambda>t. ''t+'' @ str t) [1..<HORIZON + 1])")
  case (Inl e)
  then show ?thesis
    by (simp add: eval_df_def DataFrame_error [OF Inl])
next
  case (Inr wide)
  from DataFrame_rows [OF Inr] assms
  have "wide \<noteq> []" and "length test_index \<noteq> length wide" by auto
  then have "set_timestamp wide (length (map (\<lambda>t. ''t+'' @ str t) [1..<HORIZON + 1])) test_index
      = Inl ValueError"
    by (simp add: set_timestamp_def)
  with Inr show ?thesis by (simp add: eval_df_def)
qed

text \<open>The statement of C6 at two predictions for one anchor.\<close>

theorem sample_count_mismatch_fails_witness:
  "shape0 (Array2 1 [[0.5], [0.6]]) \<noteq> length [0::int]
   \<and> 0 < shape0 (Array2 1 [[0.5], [0.6]])
   \<and> eval_df (Array2 1 [[0.5], [0.6]]) [0] (Array1 [5]) 1 id = Inl ValueError"
proof -
  have a: "shape0 (Array2 1 [[0.5], [0.6]]) \<noteq> length [0::int]" by simp
  have b: "0 < shape0 (Array2 1 [[0.5], [0.6]])" by simp
  show ?thesis using sample_count_mismatch_fails [OF a b] a b by simp
qed

text \<open>
  Claim C6 as it is worded covers a predictions array without samples as well.  Such an
  array gives a frame without rows, which takes its length from the timestamps stored
  into it: with one anchor the construction returns one row, its prediction missing, and
  does not fail.
\<close>

theorem sample_count_mismatch_counterexample:
  "shape0 (Array2 1 []) \<noteq> length [0::int]
   \<and> eval_df (Array2 1 []) [0] (Array1 [5]) 1 id
       = Inr [\<lparr>timestamp = Some 0, h = Some ''t+1'', prediction = None, actual = Some 5\<rparr>]"
  unfolding eval_df_def Let_def labels1
  by (simp add: set_timestamp_def melt_def set_actual_def upt_0_1)

subsection \<open>C7: the mean absolute percentage error\<close>

text \<open>
  Claim C7.  For every pair of finite sequences of the same length in which no actual is
  zero, \<^verbatim>\<open>mape\<close> is the mean over all elements of \<open>\<bar>prediction - actual\<bar> / actual\<close>
  (\<^verbatim>\<open>NaN\<close>, the mean of nothing, for two empty sequences).
\<close>

theorem mape_is_mean:
  assumes "length ps = length as" and "list_all (\<lambda>a. a \<noteq> 0) as"
  shows "mape (map Num ps) (map Num as) =
     (if ps = [] then NaN
      else Num (sum_list (map (\<lambda>(p, a). \<bar>p - a\<bar> / a) (zip ps as)) / real (length ps)))"
proof -
  let ?Z = "zip (map Num ps) (map Num as)"
  have Z: "?Z = map (\<lambda>(p, a). (Num p, Num a)) (zip ps as)"
    by (simp add: zip_map_map)
  have nz: "\<And>p a. (p, a) \<in> set (zip ps as) \<Longrightarrow> a \<noteq> 0"
    using assms(2) by (auto simp: list_all_iff dest: set_zip_rightD)
  then have keep: "filter (\<lambda>(p, a). \<not> is_zero a) ?Z = ?Z"
    unfolding Z by (auto simp: filter_id_conv)
  have len: "length (map Num ps) = length (map Num as)"
    using assms(1) by simp
  have h: "list_all (\<lambda>(p, a). is_zero a \<longrightarrow> is_zero p) ?Z"
    unfolding Z using nz by (auto simp: list_all_iff)
  have f: "list_all finite_value (map Num ps)" "list_all finite_value (map Num as)"
    by (simp_all add: list_all_iff)
  have s: "map (\<lambda>(p, a). \<bar>number p - number a\<bar> / number a) ?Z
      = map (\<lambda>(p, a). \<bar>p - a\<bar> / a) (zip ps as)"
    unfolding Z by (simp add: case_prod_unfold comp_def)
  have e: "?Z = [] \<longleftrightarrow> ps = []"
    using assms(1) by (cases ps; cases as) auto
  have l: "length ?Z = length ps"
    using assms(1) by simp
  show ?thesis
    unfolding mape_skips_zero_pairs [OF len f h] keep s e l ..
qed

text \<open>In particular \<^verbatim>\<open>mape([100], [50]) = 1.0\<close> and \<^verbatim>\<open>mape([50], [100]) = 0.5\<close>.\<close>

theorem mape_is_mean_witness:
  "mape [Num 100] [Num 50] = Num 1 \<and> mape [Num 50] [Num 100] = Num 0.5"
proof -
  have a: "length [100::real] = length [50::real]" "list_all (\<lambda>a. a \<noteq> 0) [50::real]"
    by simp_all
  have b: "length [50::real] = length [100::real]" "list_all (\<lambda>a. a \<noteq> 0) [100::real]"
    by simp_all
  show ?thesis
    using mape_is_mean [OF a] mape_is_mean [OF b] by simp
qed

subsection \<open>C8: a zero among the actual values\<close>

text \<open>
  Claim C8, as amended.  \<^verbatim>\<open>mape\<close> has no guard and does not raise.  For every
  input, of any lengths and values, in which some actual is a zero (of either sign) and
  the prediction at its place is neither a zero nor \<^verbatim>\<open>NaN\<close>, the element at that place
  is an infinity and the result is an infinity or \<^verbatim>\<open>NaN\<close>.  Where the prediction at
  a zero actual is a zero as well, the element is \<^verbatim>\<open>NaN\<close>, which the mean skips: for
  two sequences of finite values of the same length in which every zero actual has a
  zero prediction, the result is \<^verbatim>\<open>NaN\<close> when every actual is a zero, and otherwise
  the finite mean of the elements whose actual is not a zero.
\<close>

theorem mape_zero_actual:
  "(list_ex (\<lambda>(p, a). is_zero a \<and> \<not> is_zero p \<and> p \<noteq> NaN) (zip ps as)
      \<longrightarrow> mape ps as \<in> {PInf, NInf, NaN})
   \<and> (length ps = length as \<and> list_all finite_value ps \<and> list_all finite_value as
        \<and> list_all (\<lambda>(p, a). is_zero a \<longrightarrow> is_zero p) (zip ps as)
      \<longrightarrow> mape ps as =
            (if list_all is_zero as then NaN
             else Num (sum_list (map (\<lambda>(p, a). \<bar>number p - number a\<bar> / number a)
                                  (filter (\<lambda>(p, a). \<not> is_zero a) (zip ps as)))
                       / real (length (filter (\<lambda>(p, a). \<not> is_zero a) (zip ps as))))))"
proof (intro conjI impI)
  assume "list_ex (\<lambda>(p, a). is_zero a \<and> \<not> is_zero p \<and> p \<noteq> NaN) (zip ps as)"
  then obtain p a where pa: "(p, a) \<in> set (zip ps as)"
    and z: "is_zero a" "\<not> is_zero p" "p \<noteq> NaN"
    by (auto simp: list_ex_iff)
  from ape_zero_nonzero [OF z] have "ape (p, a) \<in> {PInf, NInf}" by auto
  with ape_in_elements [OF pa] show "mape ps as \<in> {PInf, NInf, NaN}"
    unfolding mape_def by (rule mean_infinite_element)
next
  assume a: "length ps = length as \<and> list_all finite_value ps \<and> list_all finite_value as
        \<and> list_all (\<lambda>(p, a). is_zero a \<longrightarrow> is_zero p) (zip ps as)"
  have "filter (\<lambda>(p, a). \<not> is_zero a) (zip ps as) = []
      \<longleftrightarrow> (\<forall>a \<in> set (map snd (zip ps as)). is_zero a)"
    by (auto simp: filter_empty_conv)
  also have "map snd (zip ps as) = as" using a by simp
  finally have e: "filter (\<lambda>(p, a). \<not> is_zero a) (zip ps as) = [] \<longleftrightarrow> list_all is_zero as"
    by (simp add: list_all_iff)
  from a show "mape ps as =
            (if list_all is_zero as then NaN
             else Num (sum_list (map (\<lambda>(p, a). \<bar>number p - number a\<bar> / number a)
                                  (filter (\<lambda>(p, a). \<not> is_zero a) (zip ps as)))
                       / real (length (filter (\<lambda>(p, a). \<not> is_zero a) (zip ps as)))))"
    by (simp only: mape_skips_zero_pairs e)
qed

text \<open>
  The statement of C8 at \<^verbatim>\<open>mape([1, 1], [0.0, -0.0])\<close>, whose two elements are the
  two infinities, at \<^verbatim>\<open>mape([-0.0, 3], [0, 2])\<close> and at \<^verbatim>\<open>mape([0], [-0.0])\<close>.
\<close>

theorem mape_zero_actual_witness:
  "mape [Num 1, Num 1] [Num 0, NZero] \<in> {PInf, NInf, NaN}
   \<and> mape [NZero, Num 3] [Num 0, Num 2] = Num (1 / 2)
   \<and> mape [Num 0] [NZero] = NaN"
proof -
  have a: "list_ex (\<lambda>(p, a). is_zero a \<and> \<not> is_zero p \<and> p \<noteq> NaN)
             (zip [Num 1, Num 1] [Num 0, NZero])"
    by simp
  have b: "length [NZero, Num 3] = length [Num 0, Num 2]
        \<and> list_all finite_value [NZero, Num 3] \<and> list_all finite_value [Num 0, Num 2]
        \<and> list_all (\<lambda>(p, a). is_zero a \<longrightarrow> is_zero p) (zip [NZero, Num 3] [Num 0, Num 2])"
    by simp
  have c: "length [Num 0] = length [NZero]
        \<and> list_all finite_value [Num 0] \<and> list_all finite_value [NZero]
        \<and> list_all (\<lambda>(p, a). is_zero a \<longrightarrow> is_zero p) (zip [Num 0] [NZero])"
    by simp
  from mape_zero_actual [of "[Num 1, Num 1]" "[Num 0, NZero]"] a
  have 1: "mape [Num 1, Num 1] [Num 0, NZero] \<in> {PInf, NInf, NaN}" by blast
  from mape_zero_actual [of "[NZero, Num 3]" "[Num 0, Num 2]"] b
  have 2: "mape [NZero, Num 3] [Num 0, Num 2] = Num (1 / 2)" by simp
  from mape_zero_actual [of "[Num 0]" "[NZero]"] c
  have 3: "mape [Num 0] [NZero] = NaN" by simp
  from 1 2 3 show ?thesis by blast
qed

text \<open>
  Claim C8 as it is worded has an infinite or \<^verbatim>\<open>NaN\<close> result whenever an actual is
  zero.  \<^verbatim>\<open>mape([0, 100], [0, 50])\<close> has the zero actual, and the result is \<open>1\<close>.
\<close>

theorem mape_zero_actual_counterexample:
  "mape [Num 0, Num 100] [Num 0, Num 50] = Num 1"
  by (simp add: mape_def series_op_def mean_def)

end
